theory Spec2Isabelle
  imports Complex_Main
begin

section \<open>JavaScript numbers\<close>

text \<open>
  Every quantity of the slider (leverage values, pixel offsets, the props \<open>min\<close> and
  \<open>max\<close>) is a JavaScript Number, an IEEE 754 binary64 value. A Number is modelled as a
  real, or one of the three special values that arithmetic on Numbers produces: the two
  infinities and NaN. The sign of zero is not modelled (a zero divisor counts as \<open>+0\<close>).
\<close>

datatype jsnum = Num real | PosInf | NegInf | NaN

text \<open>
  The exact sum, difference, product and quotient of two Numbers, before rounding. The
  operators of the language round this result to binary64; they follow below.
\<close>

fun js_neg :: "jsnum \<Rightarrow> jsnum" where
  "js_neg (Num a) = Num (- a)"
| "js_neg PosInf = NegInf"
| "js_neg NegInf = PosInf"
| "js_neg NaN = NaN"

fun js_add :: "jsnum \<Rightarrow> jsnum \<Rightarrow> jsnum" where
  "js_add (Num a) (Num b) = Num (a + b)"
| "js_add NaN _ = NaN"
| "js_add _ NaN = NaN"
| "js_add PosInf NegInf = NaN"
| "js_add NegInf PosInf = NaN"
| "js_add PosInf _ = PosInf"
| "js_add _ PosInf = PosInf"
| "js_add NegInf _ = NegInf"
| "js_add _ NegInf = NegInf"

definition js_sub :: "jsnum \<Rightarrow> jsnum \<Rightarrow> jsnum" where
  "js_sub a b = js_add a (js_neg b)"

text \<open>The sign of a Number that is not NaN, with zero counted as positive.\<close>

fun js_nonneg :: "jsnum \<Rightarrow> bool" where
  "js_nonneg (Num a) = (0 \<le> a)"
| "js_nonneg PosInf = True"
| "js_nonneg NegInf = False"
| "js_nonneg NaN = False"

definition signed_inf :: "bool \<Rightarrow> jsnum" where
  "signed_inf pos = (if pos then PosInf else NegInf)"

fun js_mul :: "jsnum \<Rightarrow> jsnum \<Rightarrow> jsnum" where
  "js_mul (Num a) (Num b) = Num (a * b)"
| "js_mul NaN _ = NaN"
| "js_mul _ NaN = NaN"
| "js_mul (Num a) y = (if a = 0 then NaN else signed_inf (js_nonneg (Num a) = js_nonneg y))"
| "js_mul x (Num b) = (if b = 0 then NaN else signed_inf (js_nonneg x = js_nonneg (Num b)))"
| "js_mul x y = signed_inf (js_nonneg x = js_nonneg y)"

fun js_div :: "jsnum \<Rightarrow> jsnum \<Rightarrow> jsnum" where
  "js_div (Num a) (Num b) =
     (if b = 0 then (if a = 0 then NaN else signed_inf (0 < a)) else Num (a / b))"
| "js_div NaN _ = NaN"
| "js_div _ NaN = NaN"
| "js_div (Num a) _ = Num 0"
| "js_div x (Num b) = signed_inf (js_nonneg x = js_nonneg (Num b))"
| "js_div _ _ = NaN"

subsection \<open>Rounding to binary64\<close>

text \<open>Rounding a real to the nearest integer, a tie going to the even one.\<close>

definition rne :: "real \<Rightarrow> int" where
  "rne r = (let f = \<lfloor>r\<rfloor>; d = r - of_int f
            in if d < 1 / 2 then f else if 1 / 2 < d then f + 1
               else if even f then f else f + 1)"

text \<open>
  The binary exponent of a positive real \<open>x\<close>, the \<open>e\<close> with \<open>2 ^ e \<le> x < 2 ^ (e + 1)\<close>,
  found by counting up from 0 or down from \<open>-1\<close>. The search stops at 1024 (the result
  overflows anyway) and at \<open>-1023\<close> (below the normal range, where the spacing no longer
  shrinks).
\<close>

fun expo_up :: "nat \<Rightarrow> int \<Rightarrow> real \<Rightarrow> int" where
  "expo_up 0 e x = e"
| "expo_up (Suc n) e x = (if 2 powi (e + 1) \<le> x then expo_up n (e + 1) x else e)"

fun expo_down :: "nat \<Rightarrow> int \<Rightarrow> real \<Rightarrow> int" where
  "expo_down 0 e x = e"
| "expo_down (Suc n) e x = (if x < 2 powi e then expo_down n (e - 1) x else e)"

definition expo :: "real \<Rightarrow> int" where
  "expo x = (if 1 \<le> x then expo_up 1024 0 x else expo_down 1022 (- 1) x)"

text \<open>
  The spacing of the doubles around \<open>x\<close>: 52 binary places below the leading one, and
  never less than \<open>2 ^ -1074\<close>, the smallest positive double.
\<close>

definition ulp :: "real \<Rightarrow> real" where
  "ulp x = 2 powi (max (expo \<bar>x\<bar> - 52) (- 1074))"

definition round64 :: "real \<Rightarrow> real" where
  "round64 x = of_int (rne (x / ulp x)) * ulp x"

text \<open>
  The double nearest to a real, ties to even; a result of magnitude \<open>2 ^ 1024\<close> or more
  is an infinity.
\<close>

definition fl :: "real \<Rightarrow> jsnum" where
  "fl x = (let y = round64 x in if 2 ^ 1024 \<le> \<bar>y\<bar> then signed_inf (0 < y) else Num y)"

fun rounded :: "jsnum \<Rightarrow> jsnum" where
  "rounded (Num r) = fl r"
| "rounded x = x"

text \<open>The operators \<open>+\<close>, \<open>-\<close>, \<open>*\<close> and \<open>/\<close> of the language.\<close>

definition add64 :: "jsnum \<Rightarrow> jsnum \<Rightarrow> jsnum" where
  "add64 a b = rounded (js_add a b)"

definition sub64 :: "jsnum \<Rightarrow> jsnum \<Rightarrow> jsnum" where
  "sub64 a b = rounded (js_sub a b)"

definition mul64 :: "jsnum \<Rightarrow> jsnum \<Rightarrow> jsnum" where
  "mul64 a b = rounded (js_mul a b)"

definition div64 :: "jsnum \<Rightarrow> jsnum \<Rightarrow> jsnum" where
  "div64 a b = rounded (js_div a b)"

subsection \<open>Comparison and \<open>Math\<close>\<close>

text \<open>The comparison \<open>a <= b\<close>: false as soon as one side is NaN.\<close>

fun js_le :: "jsnum \<Rightarrow> jsnum \<Rightarrow> bool" where
  "js_le (Num a) (Num b) = (a \<le> b)"
| "js_le NaN _ = False"
| "js_le _ NaN = False"
| "js_le NegInf _ = True"
| "js_le _ PosInf = True"
| "js_le _ _ = False"

text \<open>
  \<open>Math.max\<close> and \<open>Math.min\<close> of two arguments return NaN when an argument is NaN.
\<close>

definition Math_max :: "jsnum \<Rightarrow> jsnum \<Rightarrow> jsnum" where
  "Math_max a b = (if a = NaN \<or> b = NaN then NaN else if js_le a b then b else a)"

definition Math_min :: "jsnum \<Rightarrow> jsnum \<Rightarrow> jsnum" where
  "Math_min a b = (if a = NaN \<or> b = NaN then NaN else if js_le a b then a else b)"

text \<open>
  \<open>Math.round\<close> rounds to the nearest integer, a tie going towards \<open>+\<infinity>\<close>; it
  returns the infinities and NaN unchanged.
\<close>

fun Math_round :: "jsnum \<Rightarrow> jsnum" where
  "Math_round (Num a) = Num (of_int \<lfloor>a + 1 / 2\<rfloor>)"
| "Math_round x = x"

section \<open>Utility\<close>

text \<open>\<^verbatim>\<open>function clamp(val, min, max) { return Math.min(Math.max(val, min), max); }\<close>\<close>

definition clamp :: "jsnum \<Rightarrow> jsnum \<Rightarrow> jsnum \<Rightarrow> jsnum" where
  "clamp val mn mx = Math_min (Math_max val mn) mx"

section \<open>The LeverageSlider component\<close>

text \<open>
  The model follows the component of \<^verbatim>\<open>App.jsx\<close>. The repository also holds an earlier
  version of it, with the same mapper and the same handlers, whose range is fixed to 2 and
  10, which keeps its value itself, is never disabled and has no callbacks: it is the
  slider below with \<open>min_prop = Num 2\<close>, \<open>max_prop = Num 10\<close>, \<open>value_prop = None\<close> and
  \<open>disabled = False\<close>, its call log left unread.
\<close>

text \<open>
  The callbacks \<open>onChange\<close>, \<open>onDragStart\<close> and \<open>onDragEnd\<close> belong to the owner of
  the widget. A call is recorded in a log, in the order the calls are made. Each callback
  is optional in the source (\<^verbatim>\<open>onChange?.(newValue)\<close>); the log holds the calls made when
  all three are supplied.
\<close>

datatype callback = OnChange jsnum | OnDragStart | OnDragEnd jsnum

text \<open>
  The \<open>onComplete\<close> closure handed to \<open>animateThumbTo\<close>. There are two of them in the
  source: the one of \<open>handlePointerUp\<close>, and the one shared by \<open>handleLabelTap\<close> and
  \<open>handleKeyDown\<close>. Each captures the value to commit and the \<open>updateValue\<close> of the
  render it was created in, which in turn captured whether \<open>value === undefined\<close>.
\<close>

datatype completion = AfterRelease bool jsnum | AfterCommit bool jsnum

text \<open>What \<open>getBoundingClientRect\<close> reports for the track element.\<close>

record rect =
  left :: jsnum
  width :: jsnum

text \<open>
  Props, React state, the ref and the motion value of one mounted slider.
  \<open>trackRef\<close> is \<open>None\<close> while \<open>trackRef.current\<close> is null; \<open>animation\<close> is the
  animation in flight on \<open>thumbX\<close>, with its target and its \<open>onComplete\<close>.
\<close>

record slider =
  value_prop :: "jsnum option"
  min_prop :: jsnum
  max_prop :: jsnum
  disabled :: bool
  internalValue :: jsnum
  isDragging :: bool
  isHovering :: bool
  displayValue :: jsnum
  trackRef :: "rect option"
  thumbX :: jsnum
  animation :: "(jsnum \<times> completion) option"
  calls :: "callback list"

definition steps :: "slider \<Rightarrow> jsnum" where
  "steps s = sub64 (max_prop s) (min_prop s)"

text \<open>
  \<^verbatim>\<open>const currentValue = value !== undefined ? clamp(value, min, max) : internalValue;\<close>
\<close>

definition currentValue :: "slider \<Rightarrow> jsnum" where
  "currentValue s =
     (case value_prop s of
        Some v \<Rightarrow> clamp v (min_prop s) (max_prop s)
      | None \<Rightarrow> internalValue s)"

subsection \<open>Coordinate mapper\<close>

definition getTrackBounds :: "slider \<Rightarrow> rect" where
  "getTrackBounds s =
     (case trackRef s of
        None \<Rightarrow> \<lparr>left = Num 0, width = Num 400\<rparr>
      | Some r \<Rightarrow> \<lparr>left = left r, width = width r\<rparr>)"

definition leverageToX :: "slider \<Rightarrow> jsnum \<Rightarrow> jsnum" where
  "leverageToX s val =
     mul64 (div64 (sub64 val (min_prop s)) (steps s)) (width (getTrackBounds s))"

definition xToLeverage :: "slider \<Rightarrow> jsnum \<Rightarrow> jsnum" where
  "xToLeverage s px =
     (let ratio = div64 px (width (getTrackBounds s))
      in add64 (min_prop s) (mul64 ratio (steps s)))"

definition snapToNearest :: "slider \<Rightarrow> jsnum \<Rightarrow> jsnum" where
  "snapToNearest s continuousVal = clamp (Math_round continuousVal) (min_prop s) (max_prop s)"

subsection \<open>Committing and animating\<close>

text \<open>
  \<open>updateValue\<close>: the first argument is the captured test \<open>value === undefined\<close>.
\<close>

definition updateValue :: "bool \<Rightarrow> jsnum \<Rightarrow> slider \<Rightarrow> slider" where
  "updateValue uncontrolled newValue s =
     (let s' = (if uncontrolled then s\<lparr>internalValue := newValue\<rparr> else s)
      in s'\<lparr>calls := calls s' @ [OnChange newValue]\<rparr>)"

text \<open>
  \<open>animateThumbTo\<close> starts an animation of \<open>thumbX\<close>. The animation library is not part
  of the repository; of it the model keeps that a motion value has at most one animation
  in flight, that a new one takes the place of the one in flight, whose \<open>onComplete\<close>
  is then never called, that the animation in flight writes a position to \<open>thumbX\<close> at
  each frame, and that \<open>thumbX.set\<close> writes the position at once without stopping it.
\<close>

definition animateThumbTo :: "jsnum \<Rightarrow> completion \<Rightarrow> slider \<Rightarrow> slider" where
  "animateThumbTo targetX onComplete s = s\<lparr>animation := Some (targetX, onComplete)\<rparr>"

fun runCompletion :: "completion \<Rightarrow> slider \<Rightarrow> slider" where
  "runCompletion (AfterRelease uncontrolled snapped) s =
     (let s1 = updateValue uncontrolled snapped s
      in s1\<lparr>displayValue := snapped, isDragging := False,
             calls := calls s1 @ [OnDragEnd snapped]\<rparr>)"
| "runCompletion (AfterCommit uncontrolled val) s = updateValue uncontrolled val s"

text \<open>
  The animation in flight reaches its target and the library calls its \<open>onComplete\<close>.
  Whether and when that happens is the library's affair: the model has it as an event,
  and says what the component does when it occurs.
\<close>

definition animationComplete :: "slider \<Rightarrow> slider" where
  "animationComplete s =
     (case animation s of
        None \<Rightarrow> s
      | Some (targetX, onComplete) \<Rightarrow>
          runCompletion onComplete (s\<lparr>thumbX := targetX, animation := None\<rparr>))"

text \<open>A frame of the animation in flight: the library writes the position \<open>x\<close>.\<close>

definition animationFrame :: "jsnum \<Rightarrow> slider \<Rightarrow> slider" where
  "animationFrame x s = (case animation s of None \<Rightarrow> s | Some _ \<Rightarrow> s\<lparr>thumbX := x\<rparr>)"

subsection \<open>Effects\<close>

text \<open>
  The effect that syncs \<open>displayValue\<close> with a controlled value; its dependencies are
  \<open>[value, min, max, isDragging]\<close>.
\<close>

definition syncEffect :: "slider \<Rightarrow> slider" where
  "syncEffect s =
     (case value_prop s of
        Some v \<Rightarrow>
          (if \<not> isDragging s then
             (let clampedValue = clamp v (min_prop s) (max_prop s)
              in s\<lparr>displayValue := clampedValue, thumbX := leverageToX s clampedValue\<rparr>)
           else s)
      | None \<Rightarrow> s)"

definition handleResize :: "slider \<Rightarrow> slider" where
  "handleResize s =
     (if \<not> isDragging s then s\<lparr>thumbX := leverageToX s (currentValue s)\<rparr> else s)"

subsection \<open>Pointer handlers\<close>

definition handlePointerDown :: "jsnum \<Rightarrow> slider \<Rightarrow> slider" where
  "handlePointerDown clientX s =
     (if disabled s then s
      else
        (let b = getTrackBounds s;
             relativeX = clamp (sub64 clientX (left b)) (Num 0) (width b)
         in s\<lparr>isDragging := True,
               calls := calls s @ [OnDragStart],
               thumbX := relativeX,
               displayValue := snapToNearest s (xToLeverage s relativeX)\<rparr>))"

definition handlePointerMove :: "jsnum \<Rightarrow> slider \<Rightarrow> slider" where
  "handlePointerMove clientX s =
     (if \<not> isDragging s \<or> disabled s then s
      else
        (let b = getTrackBounds s;
             relativeX = clamp (sub64 clientX (left b)) (Num 0) (width b);
             snapped = snapToNearest s (xToLeverage s relativeX)
         in s\<lparr>thumbX := relativeX, displayValue := snapped\<rparr>))"

definition handlePointerUp :: "slider \<Rightarrow> slider" where
  "handlePointerUp s =
     (if \<not> isDragging s then s
      else
        (let currentX = thumbX s;
             snapped = snapToNearest s (xToLeverage s currentX);
             targetX = leverageToX s snapped
         in animateThumbTo targetX (AfterRelease (value_prop s = None) snapped) s))"

text \<open>
  The listener for \<open>pointerup\<close> on \<open>window\<close> is registered by an effect, and only in a
  render where \<open>isDragging\<close> is true.
\<close>

definition globalPointerUp :: "slider \<Rightarrow> slider" where
  "globalPointerUp s = (if isDragging s then handlePointerUp s else s)"

subsection \<open>Label tap and keyboard\<close>

definition handleLabelTap :: "jsnum \<Rightarrow> slider \<Rightarrow> slider" where
  "handleLabelTap val s =
     (if disabled s then s
      else
        (let targetX = leverageToX s val
         in animateThumbTo targetX (AfterCommit (value_prop s = None) val)
              (s\<lparr>displayValue := val\<rparr>)))"

text \<open>
  The value a key asks for, \<open>None\<close> for a key the handler ignores. The sum
  \<open>currentValue + 1\<close> and the difference \<open>currentValue - 1\<close> are taken exactly: on the
  integers below \<open>2 ^ 53\<close>, which leverage values are, the operators do not round.
\<close>

definition keyTarget :: "string \<Rightarrow> slider \<Rightarrow> jsnum option" where
  "keyTarget key s =
     (if key = ''ArrowRight'' \<or> key = ''ArrowUp'' then
        Some (Math_min (js_add (currentValue s) (Num 1)) (max_prop s))
      else if key = ''ArrowLeft'' \<or> key = ''ArrowDown'' then
        Some (Math_max (js_sub (currentValue s) (Num 1)) (min_prop s))
      else if key = ''Home'' then Some (min_prop s)
      else if key = ''End'' then Some (max_prop s)
      else None)"

definition handleKeyDown :: "string \<Rightarrow> slider \<Rightarrow> slider" where
  "handleKeyDown key s =
     (if disabled s then s
      else
        (case keyTarget key s of
           None \<Rightarrow> s
         | Some newVal \<Rightarrow>
             (let targetX = leverageToX s newVal
              in animateThumbTo targetX (AfterCommit (value_prop s = None) newVal)
                   (s\<lparr>displayValue := newVal\<rparr>))))"

subsection \<open>Hover\<close>

definition handleMouseEnter :: "slider \<Rightarrow> slider" where
  "handleMouseEnter s = (if \<not> disabled s then s\<lparr>isHovering := True\<rparr> else s)"

definition handleMouseLeave :: "slider \<Rightarrow> slider" where
  "handleMouseLeave s = (if \<not> isDragging s then s\<lparr>isHovering := False\<rparr> else s)"

subsection \<open>Mounting\<close>

text \<open>\<open>getInitialValue\<close>, from the props \<open>value\<close>, \<open>defaultValue\<close>, \<open>min\<close>, \<open>max\<close>.\<close>

definition getInitialValue :: "jsnum option \<Rightarrow> jsnum option \<Rightarrow> jsnum \<Rightarrow> jsnum \<Rightarrow> jsnum" where
  "getInitialValue v d mn mx =
     (case v of
        Some x \<Rightarrow> clamp x mn mx
      | None \<Rightarrow>
          (case d of
             Some y \<Rightarrow> clamp y mn mx
           | None \<Rightarrow> Math_round (div64 (add64 mn mx) (Num 2))))"

text \<open>
  The first render and the effects that follow it, in the order of the source: the
  controlled sync, then the initialisation of the thumb position. The state hooks start
  from \<open>getInitialValue\<close> (\<open>internalValue\<close>) and from \<open>currentValue\<close>
  (\<open>displayValue\<close>), the motion value from 0.
\<close>

definition mount ::
  "jsnum option \<Rightarrow> jsnum option \<Rightarrow> jsnum \<Rightarrow> jsnum \<Rightarrow> bool \<Rightarrow> rect option \<Rightarrow> slider" where
  "mount v d mn mx dis tr =
     (let initial = getInitialValue v d mn mx;
          current = (case v of Some x \<Rightarrow> clamp x mn mx | None \<Rightarrow> initial);
          s0 = \<lparr>value_prop = v, min_prop = mn, max_prop = mx, disabled = dis,
                internalValue = initial,
                isDragging = False, isHovering = False,
                displayValue = current,
                trackRef = tr, thumbX = Num 0, animation = None, calls = []\<rparr>;
          s1 = syncEffect s0
      in s1\<lparr>thumbX := leverageToX s1 (currentValue s1)\<rparr>)"

subsection \<open>Events\<close>

text \<open>
  What can happen to a mounted slider: the DOM events its handlers are bound to, a frame
  and the completion of the animation in flight, a layout change of the track, and a new render
  by the owner with another \<open>value\<close> or \<open>disabled\<close> prop.
\<close>

datatype event =
    PointerDown jsnum
  | PointerMove jsnum
  | PointerUp
  | GlobalPointerUp
  | LabelTap jsnum
  | KeyDown string
  | MouseEnter
  | MouseLeave
  | Resize
  | AnimationFrame jsnum
  | AnimationComplete
  | Layout "rect option"
  | ExternalValue "jsnum option"
  | SetDisabled bool

fun handle :: "event \<Rightarrow> slider \<Rightarrow> slider" where
  "handle (PointerDown x) s = handlePointerDown x s"
| "handle (PointerMove x) s = handlePointerMove x s"
| "handle PointerUp s = handlePointerUp s"
| "handle GlobalPointerUp s = globalPointerUp s"
| "handle (LabelTap v) s = handleLabelTap v s"
| "handle (KeyDown k) s = handleKeyDown k s"
| "handle MouseEnter s = handleMouseEnter s"
| "handle MouseLeave s = handleMouseLeave s"
| "handle Resize s = handleResize s"
| "handle (AnimationFrame x) s = animationFrame x s"
| "handle AnimationComplete s = animationComplete s"
| "handle (Layout r) s = s\<lparr>trackRef := r\<rparr>"
| "handle (ExternalValue v) s = s\<lparr>value_prop := v\<rparr>"
| "handle (SetDisabled b) s = s\<lparr>disabled := b\<rparr>"

text \<open>
  After the handler, React renders again and runs the sync effect when one of its
  dependencies changed (\<open>min\<close> and \<open>max\<close> are fixed in this model). What the owner does
  in answer to a callback, such as passing the committed value back as \<open>value\<close>, is an
  event of its own.
\<close>

definition step :: "slider \<Rightarrow> event \<Rightarrow> slider" where
  "step s e =
     (let s' = handle e s
      in if value_prop s' \<noteq> value_prop s \<or> isDragging s' \<noteq> isDragging s
         then syncEffect s' else s')"

definition run :: "slider \<Rightarrow> event list \<Rightarrow> slider" where
  "run s es = foldl step s es"

fun isOnChange :: "callback \<Rightarrow> bool" where
  "isOnChange (OnChange _) = True"
| "isOnChange _ = False"

subsection \<open>Sample sliders\<close>

text \<open>
  The slider of the demo page (controlled, \<open>value = 6\<close>, range 2 to 10) on a track 800
  pixels wide; an uncontrolled slider whose track is not measured yet; an uncontrolled
  slider that starts at the upper end, and one at the lower end; and the demo slider on a
  track whose measured width is zero.
\<close>

definition demo :: slider where
  "demo = mount (Some (Num 6)) None (Num 2) (Num 10) False
            (Some \<lparr>left = Num 0, width = Num 800\<rparr>)"

definition unmeasured :: slider where
  "unmeasured = mount None None (Num 2) (Num 10) False None"

definition atMax :: slider where
  "atMax = mount None (Some (Num 10)) (Num 2) (Num 10) False
             (Some \<lparr>left = Num 0, width = Num 800\<rparr>)"

definition atMin :: slider where
  "atMin = mount None (Some (Num 2)) (Num 2) (Num 10) False
             (Some \<lparr>left = Num 0, width = Num 800\<rparr>)"

definition collapsed :: slider where
  "collapsed = mount (Some (Num 6)) None (Num 2) (Num 10) False
                 (Some \<lparr>left = Num 0, width = Num 0\<rparr>)"

text \<open>
  The demo slider during a drag that began at pixel 449; the demo slider whose owner
  disabled it during a drag that began at pixel 400; the demo slider mounted disabled; and
  the unmeasured slider after a tap on the label 9 whose animation is still in flight.
\<close>

definition dragging :: slider where
  "dragging = step demo (PointerDown (Num 449))"

definition disabledMidDrag :: slider where
  "disabledMidDrag = run demo [PointerDown (Num 400), SetDisabled True]"

definition disabledDemo :: slider where
  "disabledDemo = mount (Some (Num 6)) None (Num 2) (Num 10) True
                    (Some \<lparr>left = Num 0, width = Num 800\<rparr>)"


text \<open>
  The uncontrolled slider at 3 on a track as wide as the smallest positive double,
  \<open>2 ^ -1074\<close>; and the demo slider after a drag whose settle animation was replaced,
  before it completed, by the animation of a key press.
\<close>

definition hairline :: slider where
  "hairline = mount None (Some (Num 3)) (Num 2) (Num 10) False
                (Some \<lparr>left = Num 0, width = Num (1 / 2 ^ 1074)\<rparr>)"

definition interrupted :: slider where
  "interrupted = run demo [PointerDown (Num 400), PointerUp, GlobalPointerUp,
                   KeyDown ''ArrowRight'', AnimationComplete]"

section \<open>Rounding: error bound and exact cases\<close>

lemma rne_of_int [simp]: "rne (of_int j) = j"
  by (simp add: rne_def)

lemma rne_error: "\<bar>of_int (rne r) - r\<bar> \<le> 1 / 2"
  unfolding rne_def Let_def by (auto; linarith)

lemma expo_up_lower: "2 powi e \<le> x \<Longrightarrow> 2 powi (expo_up n e x) \<le> x"
  by (induction n arbitrary: e) auto

lemma expo_down_lower: "e - int n < expo_down n e x \<Longrightarrow> 2 powi (expo_down n e x) \<le> x"
proof (induction n arbitrary: e)
  case 0
  then show ?case by simp
next
  case (Suc n)
  show ?case
  proof (cases "x < 2 powi e")
    case True
    with Suc.prems have "e - 1 - int n < expo_down n (e - 1) x"
      by simp
    then have "2 powi (expo_down n (e - 1) x) \<le> x"
      by (rule Suc.IH)
    with True show ?thesis by simp
  next
    case False
    then show ?thesis by simp
  qed
qed

lemma expo_lower:
  assumes "- 1023 < expo x"
  shows "2 powi (expo x) \<le> x"
proof (cases "1 \<le> x")
  case True
  then have "2 powi (expo_up 1024 0 x) \<le> x"
    by (intro expo_up_lower) simp
  with True show ?thesis by (simp add: expo_def)
next
  case False
  with assms have "- 1 - int 1022 < expo_down 1022 (- 1) x"
    by (simp add: expo_def)
  then have "2 powi (expo_down 1022 (- 1) x) \<le> x"
    by (rule expo_down_lower)
  with False show ?thesis by (simp add: expo_def)
qed

lemma ulp_pos: "0 < ulp x"
  by (simp add: ulp_def)

lemma ulp_bound: "ulp x \<le> \<bar>x\<bar> / 2 ^ 52 + 1 / 2 ^ 1074"
proof (cases "expo \<bar>x\<bar> - 52 \<le> - 1074")
  case True
  then have "ulp x = 2 powi (- 1074)"
    by (simp add: ulp_def max_def)
  also have "\<dots> = 1 / 2 ^ 1074"
    by (simp add: power_int_minus field_simps)
  finally show ?thesis by simp
next
  case False
  then have e: "- 1023 < expo \<bar>x\<bar>" by simp
  then have low: "2 powi (expo \<bar>x\<bar>) \<le> \<bar>x\<bar>"
    by (rule expo_lower)
  from False have "ulp x = 2 powi (expo \<bar>x\<bar> - 52)"
    by (simp add: ulp_def max_def)
  also have "\<dots> = 2 powi (expo \<bar>x\<bar>) / 2 ^ 52"
    by (simp add: power_int_diff)
  also have "\<dots> \<le> \<bar>x\<bar> / 2 ^ 52"
    using low by (simp add: divide_right_mono)
  finally show ?thesis by simp
qed

lemma round64_error: "\<bar>round64 x - x\<bar> \<le> ulp x / 2"
proof -
  have q: "0 < ulp x" by (rule ulp_pos)
  have "round64 x - x = (of_int (rne (x / ulp x)) - x / ulp x) * ulp x"
    using q by (simp add: round64_def field_simps)
  then have "\<bar>round64 x - x\<bar> = \<bar>of_int (rne (x / ulp x)) - x / ulp x\<bar> * ulp x"
    using q by (simp add: abs_mult)
  also have "\<dots> \<le> 1 / 2 * ulp x"
    using q rne_error [of "x / ulp x"] by (intro mult_right_mono) simp_all
  finally show ?thesis by simp
qed

lemma fl_error:
  assumes "\<bar>x\<bar> \<le> 2 ^ 1023"
  shows "\<exists>y. fl x = Num y \<and> \<bar>y - x\<bar> \<le> \<bar>x\<bar> / 2 ^ 53 + 1 / 2 ^ 1075"
proof -
  have err: "\<bar>round64 x - x\<bar> \<le> \<bar>x\<bar> / 2 ^ 53 + 1 / 2 ^ 1075"
    using round64_error [of x] ulp_bound [of x] by simp
  have "\<bar>round64 x\<bar> \<le> \<bar>x\<bar> + \<bar>round64 x - x\<bar>"
    by simp
  also have "\<dots> \<le> \<bar>x\<bar> + (\<bar>x\<bar> / 2 ^ 53 + 1 / 2 ^ 1075)"
    using err by simp
  also have "\<dots> \<le> 2 ^ 1023 + (2 ^ 1023 / 2 ^ 53 + 1 / 2 ^ 1075)"
    using assms by (simp add: add_mono divide_right_mono)
  also have "\<dots> < (2 ^ 1024 :: real)"
    by simp
  finally have "\<not> 2 ^ 1024 \<le> \<bar>round64 x\<bar>"
    by simp
  then have "fl x = Num (round64 x)"
    by (simp add: fl_def Let_def)
  with err show ?thesis by blast
qed


lemma of_int_abs_less_53: "\<bar>m\<bar> < 2 ^ 53 \<Longrightarrow> of_int \<bar>m\<bar> < (2 ^ 53 :: real)"
  by (metis of_int_less_numeral_power_cancel_iff)

lemma power_53_div: "(2 :: real) ^ 53 / 2 ^ k = 2 powi (53 - int k)"
  by (simp add: power_int_diff)

lemma dyadic_div_powi: "(of_int m / 2 ^ k :: real) / 2 powi q = of_int m * 2 powi (- int k - q)"
  by (simp add: power_int_diff power_int_minus field_simps)

lemma powi_split: "2 powi (- int k - q) * 2 powi q = (2 :: real) powi (- int k)"
  by (simp add: power_int_add [symmetric])

lemma dyadic_powi: "of_int m * (2 :: real) powi (- int k) = of_int m / 2 ^ k"
  by (simp add: power_int_minus field_simps)


lemma fl_exact:
  assumes "\<bar>m\<bar> < 2 ^ 53" and "k \<le> 1074"
  shows "fl (of_int m / 2 ^ k) = Num (of_int m / 2 ^ k)"
proof -
  define x :: real where "x = of_int m / 2 ^ k"
  define e where "e = expo \<bar>x\<bar>"
  define q where "q = max (e - 52) (- 1074)"
  have absx: "\<bar>x\<bar> = of_int \<bar>m\<bar> / 2 ^ k"
    by (simp add: x_def)
  have m53: "of_int \<bar>m\<bar> < (2 ^ 53 :: real)"
    using assms(1) by (rule of_int_abs_less_53)
  then have small: "\<bar>x\<bar> < 2 ^ 53 / 2 ^ k"
    unfolding absx by (simp add: divide_strict_right_mono)
  have "e - 52 \<le> - int k"
  proof (cases "- 1023 < e")
    case True
    then have "2 powi e \<le> \<bar>x\<bar>"
      unfolding e_def by (rule expo_lower)
    with small have "(2 :: real) powi e < 2 ^ 53 / 2 ^ k"
      by simp
    then have lt: "(2 :: real) powi e < 2 powi (53 - int k)"
      by (simp only: power_53_div)
    have "e < 53 - int k"
    proof (rule ccontr)
      assume "\<not> e < 53 - int k"
      then have "53 - int k \<le> e"
        by simp
      then have "(2 :: real) powi (53 - int k) \<le> 2 powi e"
        by (intro power_int_increasing) simp_all
      with lt show False by simp
    qed
    then show ?thesis by simp
  next
    case False
    with assms(2) show ?thesis by simp
  qed
  moreover have "- 1074 \<le> - int k"
    using assms(2) by simp
  ultimately have qk: "q \<le> - int k"
    by (simp add: q_def)
  define n where "n = nat (- int k - q)"
  have n: "- int k - q = int n"
    using qk by (simp add: n_def)
  have "x / 2 powi q = of_int m * 2 powi (- int k - q)"
    unfolding x_def by (rule dyadic_div_powi)
  also have "\<dots> = of_int m * 2 ^ n"
    by (simp only: n power_int_of_nat)
  also have "\<dots> = of_int (m * 2 ^ n)"
    by simp
  finally have xq: "x / 2 powi q = of_int (m * 2 ^ n)" .
  have u: "ulp x = 2 powi q"
    by (simp only: ulp_def q_def e_def)
  have "rne (x / ulp x) = m * 2 ^ n"
    by (simp only: u xq rne_of_int)
  then have "round64 x = of_int (m * 2 ^ n) * 2 powi q"
    by (simp only: round64_def u)
  also have "\<dots> = of_int m * (2 powi (- int k - q) * 2 powi q)"
    by (simp only: n power_int_of_nat) simp
  also have "\<dots> = of_int m * (2 :: real) powi (- int k)"
    by (simp only: powi_split)
  also have "\<dots> = x"
    unfolding x_def by (rule dyadic_powi)
  finally have r: "round64 x = x" .
  have "1 \<le> (2 :: real) ^ k"
    by simp
  then have "of_int \<bar>m\<bar> / 2 ^ k \<le> (of_int \<bar>m\<bar> :: real) / 1"
    by (intro divide_left_mono) simp_all
  with m53 have "\<bar>x\<bar> < 2 ^ 53"
    unfolding absx by simp
  also have "(2 ^ 53 :: real) < 2 ^ 1024"
    by simp
  finally have "\<not> 2 ^ 1024 \<le> \<bar>round64 x\<bar>"
    unfolding r by simp
  then have "fl x = Num x"
    by (simp add: fl_def Let_def r)
  then show ?thesis
    by (simp only: x_def)
qed

lemma fl_int: "\<bar>m\<bar> < 2 ^ 53 \<Longrightarrow> fl (of_int m) = Num (of_int m)"
  using fl_exact [of m 0] by simp

lemma fl_0: "fl 0 = Num 0"
  using fl_int [of 0] by simp

lemma expo_down_bottom:
  assumes "x < 2 powi (e - int n + 1)"
  shows "expo_down n e x = e - int n"
  using assms
proof (induction n arbitrary: e)
  case 0
  then show ?case by simp
next
  case (Suc n)
  have "(2 :: real) powi (e - int (Suc n) + 1) \<le> 2 powi e"
    by (intro power_int_increasing) simp_all
  with Suc.prems have below: "x < 2 powi e"
    by simp
  from Suc.prems have "x < 2 powi (e - 1 - int n + 1)"
    by simp
  then have "expo_down n (e - 1) x = e - 1 - int n"
    by (rule Suc.IH)
  with below show ?case by simp
qed

lemma fl_tiny:
  assumes "0 \<le> x" and "x < 1 / 2 ^ 1075"
  shows "fl x = Num 0"
proof -
  have "(1 :: real) / 2 ^ 1075 \<le> 2 powi (- 1 - int 1022 + 1)"
    by (simp add: power_int_minus field_simps)
  with assms(2) have "x < 2 powi (- 1 - int 1022 + 1)"
    by simp
  then have "expo_down 1022 (- 1) x = - 1 - int 1022"
    by (rule expo_down_bottom)
  moreover have "\<not> 1 \<le> x"
    using assms(2) by (simp add: field_simps)
  ultimately have "expo \<bar>x\<bar> = - 1023"
    using assms(1) by (simp add: expo_def)
  then have u: "ulp x = 1 / 2 ^ 1074"
    by (simp add: ulp_def power_int_minus field_simps)
  have "0 \<le> x * 2 ^ 1074" and "x * 2 ^ 1074 < 1 / 2"
    using assms by (simp_all add: field_simps)
  then have "\<lfloor>x * 2 ^ 1074\<rfloor> = 0"
    by (simp add: floor_eq_iff)
  with \<open>x * 2 ^ 1074 < 1 / 2\<close> have "rne (x * 2 ^ 1074) = 0"
    by (simp add: rne_def)
  then have "round64 x = 0"
    by (simp add: round64_def u)
  then show ?thesis
    by (simp add: fl_def)
qed

lemma fl_numeral: "numeral n < (2 ^ 53 :: int) \<Longrightarrow> fl (numeral n) = Num (numeral n)"
  using fl_int [of "numeral n"] by simp

lemma fl_1: "fl 1 = Num 1"
  using fl_int [of 1] by simp

lemma fl_half: "fl (1 / 2) = Num (1 / 2)"
  using fl_exact [of 1 1] by simp

lemma fl_eighth: "fl (1 / 8) = Num (1 / 8)"
  using fl_exact [of 1 3] by simp

lemma fl_five_eighths: "fl (5 / 8) = Num (5 / 8)"
  using fl_exact [of 5 3] by simp

lemma fl_seven_eighths: "fl (7 / 8) = Num (7 / 8)"
  using fl_exact [of 7 3] by simp

lemmas fl_samples = fl_0 fl_1 fl_numeral fl_half fl_eighth fl_five_eighths fl_seven_eighths

lemmas ops64 = add64_def sub64_def mul64_def div64_def js_sub_def

section \<open>Arithmetic on finite Numbers\<close>

lemma Math_max_Num: "Math_max (Num x) (Num y) = Num (max x y)"
  by (simp add: Math_max_def max_def)

lemma Math_min_Num: "Math_min (Num x) (Num y) = Num (min x y)"
  by (simp add: Math_min_def min_def)

lemma clamp_Num: "clamp (Num x) (Num a) (Num b) = Num (min (max x a) b)"
  by (simp add: clamp_def Math_max_Num Math_min_Num)

lemma snapToNearest_Num:
  assumes "min_prop s = Num a" and "max_prop s = Num b"
  shows "snapToNearest s (Num x) = Num (min (max (of_int (round x)) a) b)"
  using assms by (simp add: snapToNearest_def clamp_Num round_def)

section \<open>The sample sliders, evaluated\<close>

lemmas mapper_defs = leverageToX_def xToLeverage_def steps_def getTrackBounds_def ops64

lemma demo_eq:
  "demo = \<lparr>value_prop = Some (Num 6), min_prop = Num 2, max_prop = Num 10,
     disabled = False, internalValue = Num 6, isDragging = False, isHovering = False,
     displayValue = Num 6, trackRef = Some \<lparr>left = Num 0, width = Num 800\<rparr>,
     thumbX = Num 400, animation = None, calls = []\<rparr>"
  by (simp add: Let_def demo_def mount_def getInitialValue_def currentValue_def syncEffect_def
      clamp_Num mapper_defs fl_samples)

lemma unmeasured_eq:
  "unmeasured = \<lparr>value_prop = None, min_prop = Num 2, max_prop = Num 10,
     disabled = False, internalValue = Num 6, isDragging = False, isHovering = False,
     displayValue = Num 6, trackRef = None,
     thumbX = Num 200, animation = None, calls = []\<rparr>"
  by (simp add: Let_def unmeasured_def mount_def getInitialValue_def currentValue_def
      syncEffect_def mapper_defs fl_samples)

lemma atMax_eq:
  "atMax = \<lparr>value_prop = None, min_prop = Num 2, max_prop = Num 10,
     disabled = False, internalValue = Num 10, isDragging = False, isHovering = False,
     displayValue = Num 10, trackRef = Some \<lparr>left = Num 0, width = Num 800\<rparr>,
     thumbX = Num 800, animation = None, calls = []\<rparr>"
  by (simp add: Let_def atMax_def mount_def getInitialValue_def currentValue_def syncEffect_def
      clamp_Num mapper_defs fl_samples)

lemma atMin_eq:
  "atMin = \<lparr>value_prop = None, min_prop = Num 2, max_prop = Num 10,
     disabled = False, internalValue = Num 2, isDragging = False, isHovering = False,
     displayValue = Num 2, trackRef = Some \<lparr>left = Num 0, width = Num 800\<rparr>,
     thumbX = Num 0, animation = None, calls = []\<rparr>"
  by (simp add: Let_def atMin_def mount_def getInitialValue_def currentValue_def syncEffect_def
      clamp_Num mapper_defs fl_samples)

lemma collapsed_eq:
  "collapsed = \<lparr>value_prop = Some (Num 6), min_prop = Num 2, max_prop = Num 10,
     disabled = False, internalValue = Num 6, isDragging = False, isHovering = False,
     displayValue = Num 6, trackRef = Some \<lparr>left = Num 0, width = Num 0\<rparr>,
     thumbX = Num 0, animation = None, calls = []\<rparr>"
  by (simp add: Let_def collapsed_def mount_def getInitialValue_def currentValue_def
      syncEffect_def clamp_Num mapper_defs fl_samples)

lemma disabledDemo_eq:
  "disabledDemo = \<lparr>value_prop = Some (Num 6), min_prop = Num 2, max_prop = Num 10,
     disabled = True, internalValue = Num 6, isDragging = False, isHovering = False,
     displayValue = Num 6, trackRef = Some \<lparr>left = Num 0, width = Num 800\<rparr>,
     thumbX = Num 400, animation = None, calls = []\<rparr>"
  by (simp add: Let_def disabledDemo_def mount_def getInitialValue_def currentValue_def
      syncEffect_def clamp_Num mapper_defs fl_samples)

lemma disabledMidDrag_eq:
  "disabledMidDrag = \<lparr>value_prop = Some (Num 6), min_prop = Num 2, max_prop = Num 10,
     disabled = True, internalValue = Num 6, isDragging = True, isHovering = False,
     displayValue = Num 6, trackRef = Some \<lparr>left = Num 0, width = Num 800\<rparr>,
     thumbX = Num 400, animation = None, calls = [OnDragStart]\<rparr>"
  by (simp add: disabledMidDrag_def run_def demo_eq step_def handlePointerDown_def Let_def
      syncEffect_def clamp_Num snapToNearest_def mapper_defs fl_samples)


lemma hairline_eq:
  "hairline = \<lparr>value_prop = None, min_prop = Num 2, max_prop = Num 10,
     disabled = False, internalValue = Num 3, isDragging = False, isHovering = False,
     displayValue = Num 3, trackRef = Some \<lparr>left = Num 0, width = Num (1 / 2 ^ 1074)\<rparr>,
     thumbX = Num 0, animation = None, calls = []\<rparr>"
proof -
  have "fl (1 / 8 * (1 / 2 ^ 1074)) = Num 0"
    by (rule fl_tiny) simp_all
  then show ?thesis
    by (simp add: Let_def hairline_def mount_def getInitialValue_def currentValue_def
        syncEffect_def clamp_Num mapper_defs fl_samples)
qed

section \<open>Coordinate mapper\<close>

lemma fl_rel:
  assumes "\<bar>x\<bar> \<le> B" and "1 / 2 ^ 1022 \<le> B" and "B \<le> 2 ^ 1023"
  shows "\<exists>y. fl x = Num y \<and> \<bar>y - x\<bar> \<le> B / 2 ^ 52"
proof -
  have "\<bar>x\<bar> \<le> 2 ^ 1023"
    using assms(1,3) by simp
  then obtain y where y: "fl x = Num y" "\<bar>y - x\<bar> \<le> \<bar>x\<bar> / 2 ^ 53 + 1 / 2 ^ 1075"
    using fl_error by blast
  have "\<bar>x\<bar> / 2 ^ 53 \<le> B / 2 ^ 53"
    using assms(1) by (simp add: divide_right_mono)
  moreover have "(1 :: real) / 2 ^ 1075 \<le> B / 2 ^ 53"
    using assms(2) by (simp add: field_simps)
  moreover have "B / 2 ^ 53 + B / 2 ^ 53 = B / 2 ^ 52"
    by simp
  ultimately have "\<bar>y - x\<bar> \<le> B / 2 ^ 52"
    using y(2) by linarith
  with y(1) show ?thesis by blast
qed

lemma mul64_Num: "mul64 (Num a) (Num b) = fl (a * b)"
  by (simp add: mul64_def)

lemma div64_Num: "b \<noteq> 0 \<Longrightarrow> div64 (Num a) (Num b) = fl (a / b)"
  by (simp add: div64_def)

lemma add64_Num: "add64 (Num a) (Num b) = fl (a + b)"
  by (simp add: add64_def)

lemma sub64_of_int:
  assumes "\<bar>a - b\<bar> < 2 ^ 53"
  shows "sub64 (Num (of_int a)) (Num (of_int b)) = Num (of_int (a - b))"
proof -
  have "sub64 (Num (of_int a)) (Num (of_int b)) = fl (of_int (a - b))"
    by (simp add: sub64_def js_sub_def)
  also have "\<dots> = Num (of_int (a - b))"
    using assms by (rule fl_int)
  finally show ?thesis .
qed

text \<open>
  C8. Clamp closure of quantisation: with integers \<open>min < max\<close>, for every real input
  \<open>x\<close> the result of \<open>snapToNearest\<close> is \<open>clamp(Math.round(x), min, max)\<close>, and it is
  an integer lying between \<open>min\<close> and \<open>max\<close>.
\<close>

theorem snap_clamp_closure:
  assumes "min_prop s = Num (of_int lo)" and "max_prop s = Num (of_int hi)" and "lo < hi"
  shows "snapToNearest s (Num x) = clamp (Math_round (Num x)) (min_prop s) (max_prop s)
       \<and> (\<exists>k. snapToNearest s (Num x) = Num (of_int k) \<and> lo \<le> k \<and> k \<le> hi)"
proof
  show "snapToNearest s (Num x) = clamp (Math_round (Num x)) (min_prop s) (max_prop s)"
    by (simp add: snapToNearest_def)
next
  let ?k = "min (max (round x) lo) hi"
  have "snapToNearest s (Num x) = Num (of_int ?k)"
    using assms by (simp add: snapToNearest_Num)
  moreover have "lo \<le> ?k" and "?k \<le> hi"
    using assms(3) by simp_all
  ultimately show "\<exists>k. snapToNearest s (Num x) = Num (of_int k) \<and> lo \<le> k \<and> k \<le> hi"
    by blast
qed

theorem snap_clamp_closure_witness:
  "min_prop demo = Num (of_int 2) \<and> max_prop demo = Num (of_int 10) \<and> (2::int) < 10
   \<and> snapToNearest demo (Num (13 / 2)) = Num 7
   \<and> snapToNearest demo (Num (- 40)) = Num 2
   \<and> (\<exists>k. snapToNearest demo (Num 1234) = Num (of_int k) \<and> 2 \<le> k \<and> k \<le> 10)"
proof -
  have h: "min_prop demo = Num (of_int 2)" "max_prop demo = Num (of_int 10)" "(2::int) < 10"
    by (simp_all add: demo_eq)
  have "snapToNearest demo (Num (13 / 2)) = Num 7" "snapToNearest demo (Num (- 40)) = Num 2"
    by (simp_all add: demo_eq snapToNearest_def clamp_Num)
  then show ?thesis
    using h snap_clamp_closure [OF h, of 1234] by blast
qed

text \<open>
  C1, as stated, for any positive track width: on a track as wide as the smallest positive
  double the position of 3 is rounded to 0, and the way back gives 2.
\<close>

theorem hairline_round_trip_counterexample:
  "min_prop hairline = Num 2 \<and> max_prop hairline = Num 10
   \<and> width (getTrackBounds hairline) = Num (1 / 2 ^ 1074) \<and> (0 :: real) < 1 / 2 ^ 1074
   \<and> leverageToX hairline (Num 3) = Num 0
   \<and> snapToNearest hairline (xToLeverage hairline (leverageToX hairline (Num 3))) = Num 2"
proof -
  have tiny: "fl (1 / 8 * (1 / 2 ^ 1074)) = Num 0"
    by (rule fl_tiny) simp_all
  have pos: "leverageToX hairline (Num 3) = Num 0"
    using tiny by (simp add: hairline_eq mapper_defs fl_samples)
  have inv: "xToLeverage hairline (Num 0) = Num 2"
    by (simp add: hairline_eq mapper_defs fl_samples)
  have snap: "snapToNearest hairline (Num 2) = Num 2"
    by (simp add: hairline_eq snapToNearest_def clamp_Num)
  have "snapToNearest hairline (xToLeverage hairline (leverageToX hairline (Num 3))) = Num 2"
    by (simp only: pos inv snap)
  moreover have "min_prop hairline = Num 2" "max_prop hairline = Num 10"
    "width (getTrackBounds hairline) = Num (1 / 2 ^ 1074)"
    by (simp_all add: hairline_eq getTrackBounds_def)
  ultimately show ?thesis
    using pos by simp
qed

text \<open>
  C1, amended. In binary64 arithmetic, with integers \<open>min < max\<close> of magnitude at most
  \<open>2 ^ 40\<close> and an integer \<open>v\<close> between them,
  \<open>snapToNearest (xToLeverage (leverageToX v))\<close> is \<open>v\<close> again, when the track is
  unmeasured (the fallback width) or measured with a width between \<open>2 ^ -900\<close> and
  \<open>2 ^ 900\<close>. The mapper alone is not an exact inverse: it is the quantisation that
  absorbs the rounding of the five operations.
\<close>

theorem mapper_round_trip:
  assumes mn: "min_prop s = Num (of_int lo)" and mx: "max_prop s = Num (of_int hi)"
    and range: "lo < hi" "lo \<le> v" "v \<le> hi"
    and small: "\<bar>lo\<bar> \<le> 2 ^ 40" "\<bar>hi\<bar> \<le> 2 ^ 40"
    and track: "trackRef s = None
      \<or> (\<exists>r w. trackRef s = Some r \<and> width r = Num w \<and> 1 / 2 ^ 900 \<le> w \<and> w \<le> 2 ^ 900)"
  shows "snapToNearest s (xToLeverage s (leverageToX s (Num (of_int v)))) = Num (of_int v)"
proof -
  from track obtain w where w: "width (getTrackBounds s) = Num w"
    and wlo: "1 / 2 ^ 900 \<le> w" and whi: "w \<le> 2 ^ 900"
    by (auto simp: getTrackBounds_def)
  have "(0 :: real) < 1 / 2 ^ 900"
    by simp
  with wlo have wpos: "0 < w"
    by linarith
  define S :: real where "S = of_int (hi - lo)"
  define K :: real where "K = of_int (v - lo)"
  define L :: real where "L = of_int lo"
  have S1: "1 \<le> S"
    using range(1) by (simp add: S_def)
  have "hi - lo \<le> 2 ^ 41"
    using small by simp
  then have S41: "S \<le> 2 ^ 41"
    unfolding S_def by (metis of_int_le_numeral_power_cancel_iff)
  have K0: "0 \<le> K" and KS: "K \<le> S"
    using range by (simp_all add: K_def S_def)
  have "\<bar>lo\<bar> \<le> 2 ^ 40"
    by (rule small(1))
  then have L40: "\<bar>L\<bar> \<le> 2 ^ 40"
    unfolding L_def by (metis of_int_abs of_int_le_numeral_power_cancel_iff)
  have V: "of_int v = L + K"
    by (simp add: L_def K_def)

  have steps: "steps s = Num S"
    unfolding steps_def mn mx S_def
    using small by (intro sub64_of_int) simp
  have diff: "sub64 (Num (of_int v)) (min_prop s) = Num K"
    unfolding mn K_def
    using small range by (intro sub64_of_int) simp

  define eps :: real where "eps = 1 / 2 ^ 52"
  have eps: "0 < eps" "eps \<le> 1 / 8"
    by (simp_all add: eps_def)
  define c :: real where "c = 2 ^ 41 * eps"
  have c: "c = 1 / 2048"
    by (simp add: c_def eps_def)

  define a0 where "a0 = K / S"
  have a0: "0 \<le> a0" "a0 \<le> 1"
    using K0 KS S1 by (simp_all add: a0_def)
  have Ka0: "K = a0 * S"
    using S1 by (simp add: a0_def)

  obtain a where a: "fl (K / S) = Num a" and ea: "\<bar>a - a0\<bar> \<le> eps"
  proof -
    have "\<bar>K / S\<bar> \<le> 1"
      using a0 by (simp add: a0_def)
    then have "\<exists>y. fl (K / S) = Num y \<and> \<bar>y - K / S\<bar> \<le> 1 / 2 ^ 52"
      by (rule fl_rel) simp_all
    then show ?thesis
      using that by (auto simp: a0_def eps_def)
  qed
  have a2: "\<bar>a\<bar> \<le> 1 + eps"
    using ea a0 by linarith

  obtain x where x: "fl (a * w) = Num x" and ex: "\<bar>x - a * w\<bar> \<le> 2 * eps * w"
  proof -
    have "\<bar>a\<bar> \<le> 2"
      using a2 eps by linarith
    then have "\<bar>a\<bar> * w \<le> 2 * w"
      using wpos by (simp add: mult_right_mono)
    then have "\<bar>a * w\<bar> \<le> 2 * w"
      using wpos by (simp add: abs_mult)
    moreover have "1 / 2 ^ 1022 \<le> 2 * w"
      using wlo by (simp add: field_simps)
    moreover have "2 * w \<le> 2 ^ 1023"
      using whi by simp
    ultimately have "\<exists>y. fl (a * w) = Num y \<and> \<bar>y - a * w\<bar> \<le> 2 * w / 2 ^ 52"
      by (rule fl_rel)
    then show ?thesis
      using that by (auto simp: eps_def)
  qed
  have pos: "leverageToX s (Num (of_int v)) = Num x"
    using S1 by (simp add: leverageToX_def diff steps w div64_Num mul64_Num a x)

  have "x / w - a = (x - a * w) / w"
    using wpos by (simp add: field_simps)
  then have "\<bar>x / w - a\<bar> = \<bar>x - a * w\<bar> / w"
    using wpos by simp
  also have "\<dots> \<le> 2 * eps"
    using ex wpos by (simp add: pos_divide_le_eq)
  finally have exw: "\<bar>x / w - a\<bar> \<le> 2 * eps" .

  obtain r where r: "fl (x / w) = Num r" and er: "\<bar>r - x / w\<bar> \<le> 2 * eps"
  proof -
    have "\<bar>x / w\<bar> \<le> 2"
      using exw a2 eps by linarith
    then have "\<exists>y. fl (x / w) = Num y \<and> \<bar>y - x / w\<bar> \<le> 2 / 2 ^ 52"
      by (rule fl_rel) simp_all
    then show ?thesis
      using that by (auto simp: eps_def)
  qed
  have ra0: "\<bar>r - a0\<bar> \<le> 5 * eps"
    using er exw ea by linarith
  have r2: "\<bar>r\<bar> \<le> 2"
    using ra0 a0 eps by linarith

  obtain t where t: "fl (r * S) = Num t" and et: "\<bar>t - r * S\<bar> \<le> 2 * (eps * S)"
  proof -
    have "\<bar>r\<bar> * S \<le> 2 * S"
      using r2 S1 by (simp add: mult_right_mono)
    then have "\<bar>r * S\<bar> \<le> 2 * S"
      using S1 by (simp add: abs_mult)
    moreover have "1 / 2 ^ 1022 \<le> 2 * S"
    proof -
      have "(1 :: real) / 2 ^ 1022 \<le> 1"
        by simp
      with S1 show ?thesis by linarith
    qed
    moreover have "2 * S \<le> 2 ^ 1023"
    proof -
      have "(2 :: real) * 2 ^ 41 \<le> 2 ^ 1023"
        by simp
      with S41 show ?thesis by linarith
    qed
    ultimately have "\<exists>y. fl (r * S) = Num y \<and> \<bar>y - r * S\<bar> \<le> 2 * S / 2 ^ 52"
      by (rule fl_rel)
    then show ?thesis
      using that by (auto simp: eps_def)
  qed
  have "r * S - K = (r - a0) * S"
    by (simp add: Ka0 algebra_simps)
  then have "\<bar>r * S - K\<bar> = \<bar>r - a0\<bar> * S"
    using S1 by (simp add: abs_mult)
  also have "\<dots> \<le> 5 * eps * S"
    using ra0 S1 by (simp add: mult_right_mono)
  finally have "\<bar>r * S - K\<bar> \<le> 5 * (eps * S)"
    by simp
  with et have "\<bar>t - K\<bar> \<le> 7 * (eps * S)"
    by linarith
  moreover have "eps * S \<le> c"
    unfolding c_def using S41 eps(1) by (simp add: mult.commute mult_right_mono)
  ultimately have tK: "\<bar>t - K\<bar> \<le> 7 / 2048"
    using c by linarith

  obtain u where u: "fl (L + t) = Num u" and eu: "\<bar>u - (L + t)\<bar> \<le> 1 / 1024"
  proof -
    define B :: real where "B = 2 ^ 40"
    have B: "1 \<le> B" "2 ^ 41 = 2 * B" "2 ^ 42 = 4 * B"
      by (simp_all add: B_def)
    have "\<bar>L\<bar> \<le> B" and "S \<le> 2 * B"
      using L40 S41 by (simp_all only: B_def B(2))
    then have "\<bar>L + t\<bar> \<le> 4 * B"
      using K0 KS tK B(1) by linarith
    then have "\<bar>L + t\<bar> \<le> 2 ^ 42"
      by (simp only: B(3))
    then have "\<exists>y. fl (L + t) = Num y \<and> \<bar>y - (L + t)\<bar> \<le> 2 ^ 42 / 2 ^ 52"
      by (rule fl_rel) simp_all
    then show ?thesis
      using that by auto
  qed
  have inv: "xToLeverage s (Num x) = Num u"
    using wpos by (simp add: xToLeverage_def w steps mn div64_Num mul64_Num add64_Num r t u
        L_def [symmetric])

  have "\<bar>u - of_int v\<bar> < 1 / 2"
    unfolding V using eu tK by linarith
  then have "round u = v"
    by (rule round_unique')
  then have "snapToNearest s (Num u) = Num (of_int v)"
    using range by (simp add: snapToNearest_Num [OF mn mx])
  then show ?thesis
    by (simp add: pos inv)
qed

theorem mapper_round_trip_witness:
  "trackRef demo = Some \<lparr>left = Num 0, width = Num 800\<rparr>
   \<and> snapToNearest demo (xToLeverage demo (leverageToX demo (Num 7))) = Num 7
   \<and> trackRef unmeasured = None
   \<and> snapToNearest unmeasured (xToLeverage unmeasured (leverageToX unmeasured (Num 10))) = Num 10"
proof -
  have "snapToNearest demo (xToLeverage demo (leverageToX demo (Num (of_int 7)))) = Num (of_int 7)"
    by (rule mapper_round_trip [of demo 2 10 7]) (simp_all add: demo_eq)
  moreover have "snapToNearest unmeasured (xToLeverage unmeasured (leverageToX unmeasured
      (Num (of_int 10)))) = Num (of_int 10)"
    by (rule mapper_round_trip [of unmeasured 2 10 10]) (simp_all add: unmeasured_eq)
  ultimately show ?thesis
    by (simp add: demo_eq unmeasured_eq)
qed

subsection \<open>A track of width zero\<close>

text \<open>
  \<open>getTrackBounds\<close> falls back to the width 400 only while \<open>trackRef.current\<close> is null.
  A rectangle that the track element reports is passed on as it is, also when its width
  is zero, and \<open>xToLeverage\<close> divides by that width.
\<close>

text \<open>
  C3. Safe geometry fallback, on the demo slider whose track measures zero pixels: the
  width is not replaced by the fallback, pixel 0 maps to NaN and pixel 1 to \<open>+\<infinity>\<close>, and a
  \<open>PointerDown\<close> there puts NaN into \<open>displayValue\<close>.
\<close>

theorem zero_width_divides_by_zero:
  "trackRef collapsed = Some \<lparr>left = Num 0, width = Num 0\<rparr>
   \<and> width (getTrackBounds collapsed) = Num 0
   \<and> xToLeverage collapsed (Num 0) = NaN
   \<and> xToLeverage collapsed (Num 1) = PosInf
   \<and> displayValue (handlePointerDown (Num 120) collapsed) = NaN"
  by (simp add: collapsed_eq handlePointerDown_def snapToNearest_def clamp_def Math_max_def
      Math_min_def Let_def mapper_defs fl_samples signed_inf_def)

text \<open>
  C9. Monotonicity of the mapper, on the same slider: pixel 0 lies below pixel 1, yet
  \<open>xToLeverage 0 <= xToLeverage 1\<close> is false, the left side being NaN.
\<close>

theorem zero_width_not_monotone:
  "width (getTrackBounds collapsed) = Num 0 \<and> (0 :: real) \<le> 1
   \<and> \<not> js_le (xToLeverage collapsed (Num 0)) (xToLeverage collapsed (Num 1))"
  by (simp add: collapsed_eq mapper_defs fl_samples signed_inf_def)

section \<open>Interaction state machine\<close>

subsection \<open>What the handlers leave alone\<close>

lemmas handler_defs =
  handlePointerDown_def handlePointerMove_def handlePointerUp_def globalPointerUp_def
  handleLabelTap_def handleKeyDown_def handleMouseEnter_def handleMouseLeave_def
  handleResize_def animateThumbTo_def animationFrame_def

lemma currentValue_cong:
  assumes "value_prop t = value_prop s" and "min_prop t = min_prop s"
    and "max_prop t = max_prop s" and "internalValue t = internalValue s"
  shows "currentValue t = currentValue s"
  using assms by (simp add: currentValue_def split: option.splits)

lemma syncEffect_frame:
  "value_prop (syncEffect s) = value_prop s" "min_prop (syncEffect s) = min_prop s"
  "max_prop (syncEffect s) = max_prop s" "internalValue (syncEffect s) = internalValue s"
  "disabled (syncEffect s) = disabled s" "isDragging (syncEffect s) = isDragging s"
  "isHovering (syncEffect s) = isHovering s" "trackRef (syncEffect s) = trackRef s"
  "animation (syncEffect s) = animation s" "calls (syncEffect s) = calls s"
  by (simp_all add: syncEffect_def Let_def split: option.splits)

lemma step_frame:
  "value_prop (step s e) = value_prop (handle e s)" "min_prop (step s e) = min_prop (handle e s)"
  "max_prop (step s e) = max_prop (handle e s)"
  "internalValue (step s e) = internalValue (handle e s)"
  "disabled (step s e) = disabled (handle e s)" "isDragging (step s e) = isDragging (handle e s)"
  "isHovering (step s e) = isHovering (handle e s)" "trackRef (step s e) = trackRef (handle e s)"
  "animation (step s e) = animation (handle e s)" "calls (step s e) = calls (handle e s)"
  by (simp_all add: step_def Let_def syncEffect_frame)

lemma runCompletion_props:
  "min_prop (runCompletion c s) = min_prop s \<and> max_prop (runCompletion c s) = max_prop s"
  by (cases c) (simp_all add: updateValue_def Let_def)

lemma handle_props:
  "min_prop (handle e s) = min_prop s \<and> max_prop (handle e s) = max_prop s"
  by (cases e; simp add: handler_defs animationComplete_def runCompletion_props Let_def
      split: option.splits)

lemma handle_keeps_committed:
  assumes "e \<noteq> AnimationComplete" and "\<forall>v. e \<noteq> ExternalValue v"
  shows "value_prop (handle e s) = value_prop s
       \<and> internalValue (handle e s) = internalValue s
       \<and> filter isOnChange (calls (handle e s)) = filter isOnChange (calls s)"
  using assms
  by (cases e; simp add: handler_defs Let_def split: option.splits)

subsection \<open>Release and settle\<close>

lemma pointerUp_starts_settle:
  assumes "isDragging s" and "e = PointerUp \<or> e = GlobalPointerUp"
  shows "step s e =
     s\<lparr>animation := Some (leverageToX s (snapToNearest s (xToLeverage s (thumbX s))),
          AfterRelease (value_prop s = None) (snapToNearest s (xToLeverage s (thumbX s))))\<rparr>"
  using assms by (auto simp: step_def handler_defs Let_def)

lemma release_completes:
  assumes "animation s = Some (t, AfterRelease u v)"
  shows "\<not> isDragging (step s AnimationComplete)"
    and "animation (step s AnimationComplete) = None"
    and "calls (step s AnimationComplete) = calls s @ [OnChange v, OnDragEnd v]"
    and "internalValue (step s AnimationComplete) = (if u then v else internalValue s)"
    and "value_prop (step s AnimationComplete) = value_prop s"
  using assms by (simp_all add: step_frame animationComplete_def updateValue_def Let_def)

lemma commit_completes:
  assumes "animation s = Some (t, AfterCommit u v)"
  shows "step s AnimationComplete =
     s\<lparr>thumbX := t, animation := None,
       internalValue := (if u then v else internalValue s),
       calls := calls s @ [OnChange v]\<rparr>"
  using assms by (simp add: step_def animationComplete_def updateValue_def Let_def)

text \<open>
  C4. Deferred commit and drag frame condition. During a drag a \<open>PointerMove\<close> changes
  nothing but \<open>thumbX\<close> and \<open>displayValue\<close>. No event other than the completion of the
  animation (and the owner's own change of the \<open>value\<close> prop) changes the committed
  value or calls \<open>onChange\<close>; in particular a release, a label tap and a key press do
  not, they only start the animation. The commit and the \<open>onChange\<close> call happen when
  that animation completes.
\<close>

theorem deferred_commit:
  "(isDragging s \<longrightarrow> (\<exists>px d. step s (PointerMove x) = s\<lparr>thumbX := px, displayValue := d\<rparr>))
   \<and> (e \<noteq> AnimationComplete \<and> (\<forall>v. e \<noteq> ExternalValue v) \<longrightarrow>
        currentValue (step s e) = currentValue s
        \<and> filter isOnChange (calls (step s e)) = filter isOnChange (calls s))
   \<and> (isDragging s \<and> (r = PointerUp \<or> r = GlobalPointerUp) \<longrightarrow>
        (\<exists>t v. animation (step s r) = Some (t, AfterRelease (value_prop s = None) v)
           \<and> calls (step s r) = calls s
           \<and> calls (step (step s r) AnimationComplete) = calls s @ [OnChange v, OnDragEnd v]
           \<and> (value_prop s = None \<longrightarrow> currentValue (step (step s r) AnimationComplete) = v)))
   \<and> (\<not> disabled s \<and> (c = LabelTap w \<or> keyTarget k s = Some w \<and> c = KeyDown k) \<longrightarrow>
        (\<exists>t. animation (step s c) = Some (t, AfterCommit (value_prop s = None) w)
           \<and> calls (step s c) = calls s
           \<and> calls (step (step s c) AnimationComplete) = calls s @ [OnChange w]
           \<and> (value_prop s = None \<longrightarrow> currentValue (step (step s c) AnimationComplete) = w)))"
proof -
  have move: "isDragging s \<longrightarrow>
      (\<exists>px d. step s (PointerMove x) = s\<lparr>thumbX := px, displayValue := d\<rparr>)"
  proof
    assume "isDragging s"
    show "\<exists>px d. step s (PointerMove x) = s\<lparr>thumbX := px, displayValue := d\<rparr>"
    proof (cases "disabled s")
      case True
      then have "step s (PointerMove x) = s\<lparr>thumbX := thumbX s, displayValue := displayValue s\<rparr>"
        by (simp add: step_def handlePointerMove_def)
      then show ?thesis by blast
    next
      case False
      let ?px = "clamp (sub64 x (left (getTrackBounds s))) (Num 0) (width (getTrackBounds s))"
      from False \<open>isDragging s\<close>
      have "step s (PointerMove x)
          = s\<lparr>thumbX := ?px, displayValue := snapToNearest s (xToLeverage s ?px)\<rparr>"
        by (simp add: step_def handlePointerMove_def Let_def)
      then show ?thesis by blast
    qed
  qed
  have frame: "e \<noteq> AnimationComplete \<and> (\<forall>v. e \<noteq> ExternalValue v) \<longrightarrow>
      currentValue (step s e) = currentValue s
      \<and> filter isOnChange (calls (step s e)) = filter isOnChange (calls s)"
  proof
    assume e: "e \<noteq> AnimationComplete \<and> (\<forall>v. e \<noteq> ExternalValue v)"
    then have keep: "value_prop (handle e s) = value_prop s"
      "internalValue (handle e s) = internalValue s"
      "filter isOnChange (calls (handle e s)) = filter isOnChange (calls s)"
      using handle_keeps_committed [of e s] by simp_all
    have "currentValue (step s e) = currentValue s"
      by (rule currentValue_cong) (simp_all add: step_frame keep handle_props)
    then show "currentValue (step s e) = currentValue s
        \<and> filter isOnChange (calls (step s e)) = filter isOnChange (calls s)"
      by (simp add: step_frame keep)
  qed
  have release: "isDragging s \<and> (r = PointerUp \<or> r = GlobalPointerUp) \<longrightarrow>
      (\<exists>t v. animation (step s r) = Some (t, AfterRelease (value_prop s = None) v)
         \<and> calls (step s r) = calls s
         \<and> calls (step (step s r) AnimationComplete) = calls s @ [OnChange v, OnDragEnd v]
         \<and> (value_prop s = None \<longrightarrow> currentValue (step (step s r) AnimationComplete) = v))"
  proof
    assume r: "isDragging s \<and> (r = PointerUp \<or> r = GlobalPointerUp)"
    let ?v = "snapToNearest s (xToLeverage s (thumbX s))"
    let ?s' = "step s r"
    have s': "?s' = s\<lparr>animation :=
        Some (leverageToX s ?v, AfterRelease (value_prop s = None) ?v)\<rparr>"
      using r by (intro pointerUp_starts_settle) simp_all
    then have anim: "animation ?s'
        = Some (leverageToX s ?v, AfterRelease (value_prop s = None) ?v)"
      by simp
    have keep: "calls ?s' = calls s" "value_prop ?s' = value_prop s"
      by (simp_all add: s')
    note rel = release_completes [OF anim]
    show "\<exists>t v. animation ?s' = Some (t, AfterRelease (value_prop s = None) v)
        \<and> calls ?s' = calls s
        \<and> calls (step ?s' AnimationComplete) = calls s @ [OnChange v, OnDragEnd v]
        \<and> (value_prop s = None \<longrightarrow> currentValue (step ?s' AnimationComplete) = v)"
    proof (intro exI conjI)
      show "animation ?s' = Some (leverageToX s ?v, AfterRelease (value_prop s = None) ?v)"
        by (fact anim)
      show "calls ?s' = calls s"
        by (fact keep(1))
      show "calls (step ?s' AnimationComplete) = calls s @ [OnChange ?v, OnDragEnd ?v]"
        using rel(3) keep(1) by simp
      show "value_prop s = None \<longrightarrow> currentValue (step ?s' AnimationComplete) = ?v"
        using rel(4,5) keep(2) by (simp add: currentValue_def)
    qed
  qed
  have commit: "\<not> disabled s \<and> (c = LabelTap w \<or> keyTarget k s = Some w \<and> c = KeyDown k) \<longrightarrow>
      (\<exists>t. animation (step s c) = Some (t, AfterCommit (value_prop s = None) w)
         \<and> calls (step s c) = calls s
         \<and> calls (step (step s c) AnimationComplete) = calls s @ [OnChange w]
         \<and> (value_prop s = None \<longrightarrow> currentValue (step (step s c) AnimationComplete) = w))"
  proof
    assume c: "\<not> disabled s \<and> (c = LabelTap w \<or> keyTarget k s = Some w \<and> c = KeyDown k)"
    let ?s' = "step s c"
    have s': "?s' = s\<lparr>displayValue := w,
        animation := Some (leverageToX s w, AfterCommit (value_prop s = None) w)\<rparr>"
      using c by (auto simp: step_def handler_defs Let_def)
    then have anim: "animation ?s'
        = Some (leverageToX s w, AfterCommit (value_prop s = None) w)"
      by simp
    have keep: "calls ?s' = calls s" "value_prop ?s' = value_prop s"
      by (simp_all add: s')
    have fin: "step ?s' AnimationComplete = ?s'\<lparr>thumbX := leverageToX s w, animation := None,
         internalValue := (if value_prop s = None then w else internalValue ?s'),
         calls := calls ?s' @ [OnChange w]\<rparr>"
      using anim by (rule commit_completes)
    show "\<exists>t. animation ?s' = Some (t, AfterCommit (value_prop s = None) w)
        \<and> calls ?s' = calls s
        \<and> calls (step ?s' AnimationComplete) = calls s @ [OnChange w]
        \<and> (value_prop s = None \<longrightarrow> currentValue (step ?s' AnimationComplete) = w)"
    proof (intro exI conjI)
      show "animation ?s' = Some (leverageToX s w, AfterCommit (value_prop s = None) w)"
        by (fact anim)
      show "calls ?s' = calls s"
        by (fact keep(1))
      show "calls (step ?s' AnimationComplete) = calls s @ [OnChange w]"
        by (simp add: fin keep)
      show "value_prop s = None \<longrightarrow> currentValue (step ?s' AnimationComplete) = w"
        by (simp add: fin keep currentValue_def)
    qed
  qed
  show ?thesis
    by (intro conjI) (rule move frame release commit)+
qed

theorem deferred_commit_witness:
  "isDragging dragging \<and> \<not> disabled dragging
   \<and> (\<exists>px d. step dragging (PointerMove (Num 451)) = dragging\<lparr>thumbX := px, displayValue := d\<rparr>)
   \<and> currentValue (step dragging (PointerMove (Num 451))) = currentValue dragging
   \<and> filter isOnChange (calls (step dragging (PointerMove (Num 451)))) = []
   \<and> (\<exists>t v. animation (step dragging PointerUp) = Some (t, AfterRelease False v)
        \<and> calls (step dragging PointerUp) = [OnDragStart]
        \<and> calls (step (step dragging PointerUp) AnimationComplete)
            = [OnDragStart, OnChange v, OnDragEnd v])
   \<and> (\<exists>t. animation (step dragging (LabelTap (Num 9))) = Some (t, AfterCommit False (Num 9))
        \<and> calls (step dragging (LabelTap (Num 9))) = [OnDragStart]
        \<and> calls (step (step dragging (LabelTap (Num 9))) AnimationComplete)
            = [OnDragStart, OnChange (Num 9)])"
proof -
  have h: "isDragging dragging" "\<not> disabled dragging" "value_prop dragging \<noteq> None"
    "calls dragging = [OnDragStart]"
    by (simp_all add: dragging_def step_frame handlePointerDown_def demo_eq Let_def)
  have e: "PointerMove (Num 451) \<noteq> AnimationComplete
      \<and> (\<forall>v. PointerMove (Num 451) \<noteq> ExternalValue v)"
    by simp
  note inst = deferred_commit [of dragging "Num 451" "PointerMove (Num 451)" PointerUp
      "LabelTap (Num 9)" "Num 9" "''End''"]
  from inst h e show ?thesis
    by simp
qed

text \<open>
  C7. Controlled-mode external sync. When the owner of a controlled slider passes a new
  \<open>value\<close> while no drag is in progress, \<open>displayValue\<close> becomes the clamped new value
  and \<open>thumbX\<close> is set to \<open>leverageToX\<close> of it at once; nothing else changes, and in
  particular no animation is started.
\<close>

theorem controlled_sync:
  assumes "value_prop s = Some old" and "new \<noteq> old" and "\<not> isDragging s"
  shows "step s (ExternalValue (Some new)) =
     s\<lparr>value_prop := Some new,
       displayValue := clamp new (min_prop s) (max_prop s),
       thumbX := leverageToX s (clamp new (min_prop s) (max_prop s))\<rparr>"
  using assms
  by (simp add: step_def syncEffect_def Let_def leverageToX_def steps_def getTrackBounds_def)

theorem controlled_sync_witness:
  "value_prop demo = Some (Num 6) \<and> Num 9 \<noteq> Num 6 \<and> \<not> isDragging demo
   \<and> step demo (ExternalValue (Some (Num 9))) =
        demo\<lparr>value_prop := Some (Num 9), displayValue := Num 9, thumbX := Num 700\<rparr>"
proof -
  have h: "value_prop demo = Some (Num 6)" "Num 9 \<noteq> Num 6" "\<not> isDragging demo"
    by (simp_all add: demo_eq)
  have "clamp (Num 9) (min_prop demo) (max_prop demo) = Num 9"
    "leverageToX demo (Num 9) = Num 700"
    by (simp_all add: demo_eq clamp_Num mapper_defs fl_samples)
  with controlled_sync [OF h] h show ?thesis
    by simp
qed

subsection \<open>Keyboard\<close>

lemma currentValue_display: "currentValue (s\<lparr>displayValue := d\<rparr>) = currentValue s"
  by (rule currentValue_cong) simp_all

lemma keyTarget_display: "keyTarget k (s\<lparr>displayValue := d\<rparr>) = keyTarget k s"
  by (simp add: keyTarget_def currentValue_display)

lemma key_step:
  assumes "\<not> disabled s" and "keyTarget k s = Some t"
  shows "step (s\<lparr>displayValue := d\<rparr>) (KeyDown k) =
     s\<lparr>displayValue := t,
       animation := Some (leverageToX s t, AfterCommit (value_prop s = None) t)\<rparr>"
  using assms
  by (simp add: step_def handleKeyDown_def animateThumbTo_def keyTarget_display Let_def
      leverageToX_def steps_def getTrackBounds_def)

lemma keyTarget_up:
  assumes "k = ''ArrowRight'' \<or> k = ''ArrowUp''"
    and "currentValue s = Num c" and "max_prop s = Num hi"
  shows "keyTarget k s = Some (Num (min (c + 1) hi))"
  using assms by (auto simp: keyTarget_def Math_min_Num)

lemma keyTarget_down:
  assumes "k = ''ArrowLeft'' \<or> k = ''ArrowDown''"
    and "currentValue s = Num c" and "min_prop s = Num lo"
  shows "keyTarget k s = Some (Num (max (c - 1) lo))"
  using assms by (auto simp: keyTarget_def Math_max_Num js_sub_def)



text \<open>
  C2, as stated: \<open>onChange\<close> does fire. On the slider that sits at its maximum 10,
  ArrowRight starts an animation, and when it completes \<open>onChange(10)\<close> is called.
\<close>

theorem keyboard_boundary_counterexample:
  "currentValue atMax = max_prop atMax \<and> calls atMax = []
   \<and> calls (run atMax [KeyDown ''ArrowRight'', AnimationComplete]) = [OnChange (Num 10)]"
  by (simp add: atMax_eq run_def step_def handleKeyDown_def keyTarget_def currentValue_def
      Math_min_Num animateThumbTo_def animationComplete_def updateValue_def Let_def)

text \<open>
  C2, amended. On an enabled slider whose committed value equals \<open>max\<close>, ArrowRight and
  ArrowUp leave the value at \<open>max\<close>: the key press sets \<open>displayValue\<close> to \<open>max\<close> and
  starts the animation towards the position of \<open>max\<close>, and when the animation completes
  the committed value is still \<open>max\<close> and \<open>onChange\<close> has been called once, with \<open>max\<close>.
  The same holds for ArrowLeft and ArrowDown at \<open>min\<close>.
\<close>

theorem keyboard_boundary:
  assumes "\<not> disabled s" and "min_prop s = Num lo" and "max_prop s = Num hi"
    and "currentValue s = b"
    and "(b = Num hi \<and> (k = ''ArrowRight'' \<or> k = ''ArrowUp''))
       \<or> (b = Num lo \<and> (k = ''ArrowLeft'' \<or> k = ''ArrowDown''))"
  shows "step s (KeyDown k) =
           s\<lparr>displayValue := b,
             animation := Some (leverageToX s b, AfterCommit (value_prop s = None) b)\<rparr>
       \<and> currentValue (step s (KeyDown k)) = b
       \<and> calls (step s (KeyDown k)) = calls s
       \<and> currentValue (step (step s (KeyDown k)) AnimationComplete) = b
       \<and> calls (step (step s (KeyDown k)) AnimationComplete) = calls s @ [OnChange b]"
proof -
  have "keyTarget k s = Some b"
    using assms(5)
  proof
    assume up: "b = Num hi \<and> (k = ''ArrowRight'' \<or> k = ''ArrowUp'')"
    then have "keyTarget k s = Some (Num (min (hi + 1) hi))"
      using assms(3,4) by (intro keyTarget_up) simp_all
    with up show ?thesis by simp
  next
    assume down: "b = Num lo \<and> (k = ''ArrowLeft'' \<or> k = ''ArrowDown'')"
    then have "keyTarget k s = Some (Num (max (lo - 1) lo))"
      using assms(2,4) by (intro keyTarget_down) simp_all
    with down show ?thesis by simp
  qed
  with assms(1) have "step (s\<lparr>displayValue := displayValue s\<rparr>) (KeyDown k) =
     s\<lparr>displayValue := b,
       animation := Some (leverageToX s b, AfterCommit (value_prop s = None) b)\<rparr>"
    by (rule key_step)
  then have key: "step s (KeyDown k) =
     s\<lparr>displayValue := b,
       animation := Some (leverageToX s b, AfterCommit (value_prop s = None) b)\<rparr>"
    by simp
  then have anim: "animation (step s (KeyDown k))
      = Some (leverageToX s b, AfterCommit (value_prop s = None) b)"
    by simp
  have "currentValue (step s (KeyDown k)) = currentValue s"
    unfolding key by (rule currentValue_cong) simp_all
  then have cur: "currentValue (step s (KeyDown k)) = b"
    using assms(4) by simp
  let ?s' = "step s (KeyDown k)"
  have fin: "step ?s' AnimationComplete =
      ?s'\<lparr>thumbX := leverageToX s b, animation := None,
        internalValue := (if value_prop s = None then b else internalValue ?s'),
        calls := calls ?s' @ [OnChange b]\<rparr>"
    using anim by (rule commit_completes)
  have vp: "value_prop ?s' = value_prop s"
    by (simp add: key)
  have "currentValue (step ?s' AnimationComplete) = b"
  proof (cases "value_prop s")
    case None
    then show ?thesis
      using vp by (simp add: fin currentValue_def)
  next
    case (Some u)
    have "currentValue (step ?s' AnimationComplete) = currentValue ?s'"
      unfolding fin by (rule currentValue_cong) (simp_all add: Some)
    then show ?thesis
      using cur by simp
  qed
  moreover have "calls (step (step s (KeyDown k)) AnimationComplete) = calls s @ [OnChange b]"
    unfolding fin by (simp add: key)
  ultimately show ?thesis
    using key cur by simp
qed

theorem keyboard_boundary_witness:
  "\<not> disabled atMax \<and> currentValue atMax = Num 10 \<and> max_prop atMax = Num 10
   \<and> currentValue (step atMax (KeyDown ''ArrowUp'')) = Num 10
   \<and> calls (step atMax (KeyDown ''ArrowUp'')) = []
   \<and> currentValue (step (step atMax (KeyDown ''ArrowUp'')) AnimationComplete) = Num 10
   \<and> calls (step (step atMax (KeyDown ''ArrowUp'')) AnimationComplete) = [OnChange (Num 10)]
   \<and> currentValue atMin = Num 2 \<and> min_prop atMin = Num 2
   \<and> currentValue (step (step atMin (KeyDown ''ArrowLeft'')) AnimationComplete) = Num 2
   \<and> calls (step (step atMin (KeyDown ''ArrowLeft'')) AnimationComplete) = [OnChange (Num 2)]"
proof -
  have hi: "\<not> disabled atMax" "min_prop atMax = Num 2" "max_prop atMax = Num 10"
    "currentValue atMax = Num 10"
    "(Num 10 = Num 10 \<and> (''ArrowUp'' = ''ArrowRight'' \<or> ''ArrowUp'' = ''ArrowUp''))
     \<or> (Num 10 = Num 2 \<and> (''ArrowUp'' = ''ArrowLeft'' \<or> ''ArrowUp'' = ''ArrowDown''))"
    by (simp_all add: atMax_eq currentValue_def)
  have lo: "\<not> disabled atMin" "min_prop atMin = Num 2" "max_prop atMin = Num 10"
    "currentValue atMin = Num 2"
    "(Num 2 = Num 10 \<and> (''ArrowLeft'' = ''ArrowRight'' \<or> ''ArrowLeft'' = ''ArrowUp''))
     \<or> (Num 2 = Num 2 \<and> (''ArrowLeft'' = ''ArrowLeft'' \<or> ''ArrowLeft'' = ''ArrowDown''))"
    by (simp_all add: atMin_eq currentValue_def)
  have c: "calls atMax = []" "calls atMin = []"
    by (simp_all add: atMax_eq atMin_eq)
  from keyboard_boundary [OF hi, THEN conjunct2] keyboard_boundary [OF lo, THEN conjunct2]
    hi(1,3,4) lo(2,4) c show ?thesis
    by simp
qed

subsection \<open>Disabled slider\<close>

text \<open>
  C5, as stated, for \<open>PointerUp\<close>: \<open>handlePointerUp\<close> tests \<open>isDragging\<close> and not
  \<open>disabled\<close>. When the owner disables the slider during a drag, the release still
  starts the settle animation, and its completion calls \<open>onChange\<close> and \<open>onDragEnd\<close>
  and clears \<open>isDragging\<close>.
\<close>

theorem disabled_release_counterexample:
  "disabled disabledMidDrag
   \<and> step disabledMidDrag PointerUp \<noteq> disabledMidDrag
   \<and> step disabledMidDrag GlobalPointerUp \<noteq> disabledMidDrag
   \<and> calls disabledMidDrag = [OnDragStart]
   \<and> calls (run disabledMidDrag [GlobalPointerUp, AnimationComplete])
       = [OnDragStart, OnChange (Num 6), OnDragEnd (Num 6)]
   \<and> isDragging disabledMidDrag
   \<and> \<not> isDragging (run disabledMidDrag [GlobalPointerUp, AnimationComplete])"
proof -
  let ?s' = "disabledMidDrag\<lparr>animation := Some (Num 400, AfterRelease False (Num 6))\<rparr>"
  have up: "step disabledMidDrag PointerUp = ?s'" "step disabledMidDrag GlobalPointerUp = ?s'"
    by (simp_all add: disabledMidDrag_eq step_def handler_defs Let_def clamp_Num
        snapToNearest_def mapper_defs fl_samples)
  have ne: "?s' \<noteq> disabledMidDrag"
  proof
    assume "?s' = disabledMidDrag"
    then have "animation ?s' = animation disabledMidDrag"
      by simp
    then show False
      by (simp add: disabledMidDrag_eq)
  qed
  have anim: "animation (step disabledMidDrag GlobalPointerUp)
      = Some (Num 400, AfterRelease False (Num 6))"
    by (simp add: up)
  have r: "run disabledMidDrag [GlobalPointerUp, AnimationComplete]
      = step (step disabledMidDrag GlobalPointerUp) AnimationComplete"
    by (simp add: run_def)
  have "calls (step disabledMidDrag GlobalPointerUp) = [OnDragStart]"
    unfolding up by (simp add: disabledMidDrag_eq)
  then have "calls (run disabledMidDrag [GlobalPointerUp, AnimationComplete])
      = [OnDragStart, OnChange (Num 6), OnDragEnd (Num 6)]"
    unfolding r using release_completes(3) [OF anim] by simp
  moreover have "\<not> isDragging (run disabledMidDrag [GlobalPointerUp, AnimationComplete])"
    unfolding r using anim by (rule release_completes(1))
  ultimately show ?thesis
    using ne by (simp add: up) (simp add: disabledMidDrag_eq)
qed

text \<open>
  C5, amended. With \<open>disabled = true\<close>, every \<open>PointerDown\<close>, \<open>PointerMove\<close>, keyboard
  and label-tap event leaves the whole state as it is and calls no callback, and so does
  every \<open>PointerUp\<close>, local or global, that arrives while no drag is in progress.
\<close>

theorem disabled_noop:
  assumes "disabled s"
  shows "step s (PointerDown x) = s
       \<and> step s (PointerMove x) = s
       \<and> step s (KeyDown k) = s
       \<and> step s (LabelTap v) = s
       \<and> (\<not> isDragging s \<longrightarrow> step s PointerUp = s \<and> step s GlobalPointerUp = s)"
  using assms by (simp add: step_def handler_defs)

theorem disabled_noop_witness:
  "disabled disabledDemo \<and> \<not> isDragging disabledDemo
   \<and> step disabledDemo (PointerDown (Num 400)) = disabledDemo
   \<and> step disabledDemo (PointerMove (Num 410)) = disabledDemo
   \<and> step disabledDemo (KeyDown ''End'') = disabledDemo
   \<and> step disabledDemo (LabelTap (Num 3)) = disabledDemo
   \<and> step disabledDemo PointerUp = disabledDemo
   \<and> step disabledDemo GlobalPointerUp = disabledDemo"
proof -
  have h: "disabled disabledDemo" "\<not> isDragging disabledDemo"
    by (simp_all add: disabledDemo_eq)
  from disabled_noop [OF h(1), of "Num 400"] disabled_noop [OF h(1), of "Num 410" "''End''" "Num 3"]
    h show ?thesis
    by simp
qed

subsection \<open>A settle that does not complete\<close>

lemma released_eq:
  "run demo [PointerDown (Num 400), PointerUp, GlobalPointerUp] =
     demo\<lparr>isDragging := True, calls := [OnDragStart],
       animation := Some (Num 400, AfterRelease False (Num 6))\<rparr>"
  by (simp add: run_def demo_eq step_def handler_defs Let_def syncEffect_def clamp_Num
      snapToNearest_def mapper_defs fl_samples)

lemma interrupted_eq:
  "interrupted =
     demo\<lparr>isDragging := True, displayValue := Num 7, thumbX := Num 500,
       calls := [OnDragStart, OnChange (Num 7)]\<rparr>"
proof -
  have "interrupted = run (run demo [PointerDown (Num 400), PointerUp, GlobalPointerUp])
      [KeyDown ''ArrowRight'', AnimationComplete]"
    by (simp add: interrupted_def run_def)
  also have "\<dots> = demo\<lparr>isDragging := True, displayValue := Num 7, thumbX := Num 500,
       calls := [OnDragStart, OnChange (Num 7)]\<rparr>"
    unfolding released_eq
    by (simp add: run_def demo_eq step_def handleKeyDown_def keyTarget_def currentValue_def
        clamp_Num Math_min_Num animateThumbTo_def animationComplete_def updateValue_def Let_def
        mapper_defs fl_samples)
  finally show ?thesis .
qed

text \<open>
  C6. Stuck-drag safety, on the demo slider: after a drag is released, through the
  track's \<open>pointerup\<close> and through the listener on \<open>window\<close>, a press of ArrowRight
  replaces the settle animation before it completes. When the animation of the key press
  completes, \<open>onChange\<close> is called, but \<open>isDragging\<close> is still true, no animation is in
  flight that would clear it, and \<open>onDragEnd\<close> was never called. On the slider whose
  track measures zero pixels, the release starts a settle animation towards NaN.
\<close>

theorem interrupted_settle_stays_dragging:
  "isDragging interrupted
   \<and> animation interrupted = None
   \<and> calls interrupted = [OnDragStart, OnChange (Num 7)]
   \<and> isDragging (run collapsed [PointerDown (Num 120), GlobalPointerUp])
   \<and> animation (run collapsed [PointerDown (Num 120), GlobalPointerUp])
       = Some (NaN, AfterRelease False NaN)"
proof -
  have "isDragging interrupted" "animation interrupted = None"
    "calls interrupted = [OnDragStart, OnChange (Num 7)]"
    by (simp_all add: interrupted_eq demo_eq)
  moreover have "run collapsed [PointerDown (Num 120), GlobalPointerUp] =
      collapsed\<lparr>isDragging := True, calls := [OnDragStart], displayValue := NaN,
        animation := Some (NaN, AfterRelease False NaN)\<rparr>"
    by (simp add: run_def collapsed_eq step_def handler_defs Let_def syncEffect_def
        snapToNearest_def clamp_def Math_max_def Math_min_def mapper_defs fl_samples)
  ultimately show ?thesis
    by simp
qed

end
